theory Spec2Isabelle
  imports Complex_Main
begin

section \<open>Characters and strings of the interpreter\<close>

text \<open>
  The program is Python; its strings are sequences of Unicode code points. Here a string
  is a \<^typ>\<open>string\<close>, a list of 8-bit characters, read as the code points 0 to 255
  (ASCII and the Latin-1 supplement). The library's character classes and case mappings
  are written out for this range as the interpreter computes them.
\<close>

definition code :: "char \<Rightarrow> nat" where
  "code c = of_char c"

definition py_isspace :: "char \<Rightarrow> bool" where
  "py_isspace c = (let n = code c in (9 \<le> n \<and> n \<le> 13) \<or> (28 \<le> n \<and> n \<le> 32) \<or> n = 133 \<or> n = 160)"

definition py_isalpha :: "char \<Rightarrow> bool" where
  "py_isalpha c = (let n = code c in
     (65 \<le> n \<and> n \<le> 90) \<or> (97 \<le> n \<and> n \<le> 122) \<or> n = 170 \<or> n = 181 \<or> n = 186 \<or>
     (192 \<le> n \<and> n \<le> 214) \<or> (216 \<le> n \<and> n \<le> 246) \<or> (248 \<le> n \<and> n \<le> 255))"

definition py_isdecimal :: "char \<Rightarrow> bool" where
  "py_isdecimal c = (let n = code c in 48 \<le> n \<and> n \<le> 57)"

definition py_isdigit :: "char \<Rightarrow> bool" where
  "py_isdigit c = (let n = code c in (48 \<le> n \<and> n \<le> 57) \<or> n = 178 \<or> n = 179 \<or> n = 185)"

definition py_isnumeric :: "char \<Rightarrow> bool" where
  "py_isnumeric c = (let n = code c in py_isdigit c \<or> (188 \<le> n \<and> n \<le> 190))"

text \<open>The class \<open>\w\<close> of the \<open>re\<close> module on a text pattern: alphanumeric or underscore.\<close>

definition re_word :: "char \<Rightarrow> bool" where
  "re_word c = (py_isalpha c \<or> py_isnumeric c \<or> c = CHR ''_'')"

definition lower_char :: "char \<Rightarrow> char" where
  "lower_char c = (let n = code c in
     if (65 \<le> n \<and> n \<le> 90) \<or> (192 \<le> n \<and> n \<le> 214) \<or> (216 \<le> n \<and> n \<le> 222)
     then char_of (n + 32) else c)"

definition py_lower :: "string \<Rightarrow> string" where
  "py_lower s = map lower_char s"

definition py_lstrip :: "string \<Rightarrow> string" where
  "py_lstrip s = dropWhile py_isspace s"

definition py_rstrip :: "string \<Rightarrow> string" where
  "py_rstrip s = rev (dropWhile py_isspace (rev s))"

definition py_strip :: "string \<Rightarrow> string" where
  "py_strip s = py_rstrip (py_lstrip s)"

section \<open>utils.py\<close>

definition END_KEYWORDS :: "string set" where
  "END_KEYWORDS = {''bye'', ''exit'', ''quit'', ''stop'', ''end'', ''thank you'', ''thanks''}"

definition is_end_message :: "string \<Rightarrow> bool" where
  "is_end_message s = (py_lower (py_strip s) \<in> END_KEYWORDS)"

subsection \<open>anonymize\<close>

text \<open>
  \<open>re.split(r"(\W+)", value)\<close>: the text is cut at every maximal run of non-word
  characters, and the runs are kept (the pattern is a group). The result alternates word
  pieces and separator runs and begins and ends with a word piece, which may be empty.
\<close>

function re_split_nonword :: "string \<Rightarrow> string list" where
  "re_split_nonword s =
     (let w = takeWhile re_word s; r = dropWhile re_word s in
      if r = [] then [w]
      else w # takeWhile (\<lambda>c. \<not> re_word c) r
             # re_split_nonword (dropWhile (\<lambda>c. \<not> re_word c) r))"
  by pat_completeness auto
termination
proof (relation "measure length")
  show "wf (measure length)" by simp
next
  fix s w r :: string
  assume w: "w = takeWhile re_word s" and r: "r = dropWhile re_word s" and ne: "r \<noteq> []"
  from ne r have "\<not> re_word (hd r)"
    using hd_dropWhile by metis
  with ne have "length (dropWhile (\<lambda>c. \<not> re_word c) r) < length r"
    by (cases r) (simp_all add: le_imp_less_Suc length_dropWhile_le)
  moreover have "length r \<le> length s"
    using r by (simp add: length_dropWhile_le)
  ultimately show "(dropWhile (\<lambda>c. \<not> re_word c) r, s) \<in> measure length"
    by simp
qed

definition str_isalpha :: "string \<Rightarrow> bool" where
  "str_isalpha p = (p \<noteq> [] \<and> list_all py_isalpha p)"

text \<open>\<open>re.fullmatch(r"\d{3,}", p)\<close>: three or more decimal digits and nothing else.\<close>

definition fullmatch_digits3 :: "string \<Rightarrow> bool" where
  "fullmatch_digits3 p = (3 \<le> length p \<and> list_all py_isdecimal p)"

definition anonymize_part :: "string \<Rightarrow> string" where
  "anonymize_part p =
     (if str_isalpha p \<and> 1 < length p then hd p # replicate (length p - 1) CHR ''*''
      else if fullmatch_digits3 p then replicate (length p) CHR ''*''
      else p)"

definition anonymize :: "string \<Rightarrow> string" where
  "anonymize v = (if v = [] then v else concat (map anonymize_part (re_split_nonword v)))"

subsection \<open>mask_email\<close>

text \<open>\<open>email.split("@", 1)\<close> cuts at the first \<open>@\<close>: \<open>user\<close> is what precedes it,
  \<open>domain\<close> all that follows it.\<close>

definition local_part :: "string \<Rightarrow> string" where
  "local_part email = takeWhile (\<lambda>c. c \<noteq> CHR ''@'') email"

definition domain_part :: "string \<Rightarrow> string" where
  "domain_part email = tl (dropWhile (\<lambda>c. c \<noteq> CHR ''@'') email)"

definition mask_email :: "string \<Rightarrow> string" where
  "mask_email email0 =
     (let email = py_strip email0 in
      if CHR ''@'' \<notin> set email then anonymize email
      else
        let user = local_part email; domain = domain_part email
        in if user = [] then anonymize email
           else (hd user # replicate (max 1 (length user - 1)) CHR ''*'') @ ''@'' @ domain)"

subsection \<open>tech_list_from_input\<close>

text \<open>\<open>s.split(",")\<close>: the pieces between the separators; \<open>n\<close> separators give
  \<open>n + 1\<close> pieces, empty ones included.\<close>

fun py_split_char :: "char \<Rightarrow> string \<Rightarrow> string list" where
  "py_split_char sep [] = [[]]"
| "py_split_char sep (c # cs) =
     (let r = py_split_char sep cs in
      if c = sep then [] # r else (c # hd r) # tl r)"

text \<open>\<open>re.search(r"[a-zA-Z]", t)\<close>: some character is an ASCII letter.\<close>

definition ascii_letter :: "char \<Rightarrow> bool" where
  "ascii_letter c = (let n = code c in (65 \<le> n \<and> n \<le> 90) \<or> (97 \<le> n \<and> n \<le> 122))"

definition tech_list_from_input :: "string \<Rightarrow> string list" where
  "tech_list_from_input s =
     (let items = map py_strip (py_split_char CHR '','' s);
          items = filter (\<lambda>t. t \<noteq> [] \<and> list_ex ascii_letter t) items
      in take 10 (map (take 50) items))"

subsection \<open>parse_1_to_10\<close>

text \<open>
  \<open>re.search(r"\b([1-9]|10)\b", s.strip())\<close>. The search tries every position from
  the left; at a position the pattern needs a word boundary, then the first alternative
  \<open>[1-9]\<close> followed by a boundary, and when that fails the second alternative \<open>10\<close>
  followed by a boundary. \<open>\b\<close> holds between two neighbours of which exactly one is a
  word character, the ends of the text counting as non-word.
\<close>

definition word_opt :: "char option \<Rightarrow> bool" where
  "word_opt a = (case a of None \<Rightarrow> False | Some c \<Rightarrow> re_word c)"

definition word_boundary :: "char option \<Rightarrow> char option \<Rightarrow> bool" where
  "word_boundary a b = (word_opt a \<noteq> word_opt b)"

definition head :: "string \<Rightarrow> char option" where
  "head s = (case s of [] \<Rightarrow> None | c # _ \<Rightarrow> Some c)"

text \<open>The class \<open>[1-9]\<close>.\<close>

definition digit_1_9 :: "char \<Rightarrow> bool" where
  "digit_1_9 c = (c \<in> set ''123456789'')"

definition match_rating_here :: "char option \<Rightarrow> string \<Rightarrow> int option" where
  "match_rating_here prev s =
     (if \<not> word_boundary prev (head s) then None
      else case s of
        [] \<Rightarrow> None
      | c # cs \<Rightarrow>
          if digit_1_9 c \<and> word_boundary (Some c) (head cs) then Some (int (code c) - 48)
          else (case cs of
                  [] \<Rightarrow> None
                | d # ds \<Rightarrow>
                    if c = CHR ''1'' \<and> d = CHR ''0'' \<and> word_boundary (Some d) (head ds)
                    then Some 10 else None))"

fun search_rating :: "char option \<Rightarrow> string \<Rightarrow> int option" where
  "search_rating prev [] = match_rating_here prev []"
| "search_rating prev (c # cs) =
     (case match_rating_here prev (c # cs) of
        Some n \<Rightarrow> Some n
      | None \<Rightarrow> search_rating (Some c) cs)"

definition parse_1_to_10 :: "string \<Rightarrow> int option" where
  "parse_1_to_10 s = search_rating None (py_strip s)"

section \<open>The interpreter's values and the library\<close>

text \<open>
  A parsed JSON document is a value of the interpreter: \<open>None\<close>, a bool, an int, a float,
  a str, a list or a dict (its items in insertion order, the keys distinct). A float is
  finite, a signed zero, an infinity or not a number; the finite ones are read as the
  rationals they denote.
\<close>

datatype pyfloat = Finite rat | NegZero | PosInf | NegInf | NaN

datatype json =
    JNull
  | JBool bool
  | JInt int
  | JFloat pyfloat
  | JStr string
  | JList "json list"
  | JObj "(string \<times> json) list"

text \<open>The truth value of a value, as \<open>or\<close> and \<open>if\<close> test it.\<close>

fun truthy :: "json \<Rightarrow> bool" where
  "truthy JNull = False"
| "truthy (JBool b) = b"
| "truthy (JInt n) = (n \<noteq> 0)"
| "truthy (JFloat f) = (f \<noteq> Finite 0 \<and> f \<noteq> NegZero)"
| "truthy (JStr s) = (s \<noteq> [])"
| "truthy (JList xs) = (xs \<noteq> [])"
| "truthy (JObj kvs) = (kvs \<noteq> [])"

text \<open>\<open>d.get(k)\<close>: the value under the key, \<open>None\<close> when the key is absent.\<close>

definition py_get :: "(string \<times> json) list \<Rightarrow> string \<Rightarrow> json" where
  "py_get d k = (case map_of d k of None \<Rightarrow> JNull | Some v \<Rightarrow> v)"

text \<open>\<open>d[k] = v\<close> on a dict held as its list of items: an existing key keeps its place.\<close>

fun dict_set :: "'k \<Rightarrow> 'v \<Rightarrow> ('k \<times> 'v) list \<Rightarrow> ('k \<times> 'v) list" where
  "dict_set k v [] = [(k, v)]"
| "dict_set k v ((k', v') # d) = (if k' = k then (k, v) # d else (k', v') # dict_set k v d)"

text \<open>
  The generative backend and three functions of the standard library are not part of the
  program; the program is modelled over any behaviour of them:
  \<^item> \<open>json_loads\<close> is \<open>json.loads\<close>, \<open>None\<close> when it raises;
  \<^item> \<open>py_repr\<close> is \<open>str()\<close> of a value that is not a str;
  \<^item> \<open>int_of_str\<close> is \<open>int()\<close> of a str, \<open>None\<close> when it raises;
  \<^item> \<open>model_present\<close> tells whether \<open>genai.GenerativeModel\<close> returned a model at start-up;
  \<^item> \<open>backend\<close> is the remote call: given the number of calls made before and the prompt,
    it returns a reply or raises (\<open>None\<close>).
\<close>

datatype field =
    Full_Name | Email_Address | Phone_Number | Years_of_Experience
  | Desired_Positions | Current_Location | Tech_Stack

record answer =
  a_tech :: string
  a_question :: string
  a_answer :: string
  a_score :: "int option"
  a_feedback :: "json option"

text \<open>A prompt is held by the values its template interpolates.\<close>

datatype prompt =
    QuestionsPrompt string
  | ScorePrompt string string
  | SummaryPrompt "(field \<times> string option) list" "(string \<times> int) list" "answer list"

datatype candidate_reply = Candidate (c_content: "string option") (c_text: "string option") (c_str: string)

datatype reply =
  Reply (r_text: "string option") (r_content: "string option")
        (r_candidates: "candidate_reply list") (r_str: string)

record env =
  json_loads :: "string \<Rightarrow> json option"
  py_repr :: "json \<Rightarrow> string"
  int_of_str :: "string \<Rightarrow> int option"
  model_present :: bool
  backend :: "nat \<Rightarrow> prompt \<Rightarrow> reply option"

definition py_str :: "env \<Rightarrow> json \<Rightarrow> string" where
  "py_str e v = (case v of JStr s \<Rightarrow> s | _ \<Rightarrow> py_repr e v)"

text \<open>\<open>int(v)\<close>; \<open>None\<close> when it raises (TypeError, ValueError or OverflowError).\<close>

definition trunc_rat :: "rat \<Rightarrow> int" where
  "trunc_rat r = (if 0 \<le> r then \<lfloor>r\<rfloor> else \<lceil>r\<rceil>)"

definition py_int :: "env \<Rightarrow> json \<Rightarrow> int option" where
  "py_int e v =
     (case v of
        JInt n \<Rightarrow> Some n
      | JBool b \<Rightarrow> Some (if b then 1 else 0)
      | JFloat f \<Rightarrow> (case f of Finite r \<Rightarrow> Some (trunc_rat r) | NegZero \<Rightarrow> Some 0 | _ \<Rightarrow> None)
      | JStr s \<Rightarrow> int_of_str e s
      | _ \<Rightarrow> None)"

definition none_if_null :: "json \<Rightarrow> json option" where
  "none_if_null v = (case v of JNull \<Rightarrow> None | _ \<Rightarrow> Some v)"

subsection \<open>safe_extract_json (utils.py)\<close>

definition py_find :: "char \<Rightarrow> string \<Rightarrow> nat option" where
  "py_find c s = (if c \<in> set s then Some (length (takeWhile (\<lambda>x. x \<noteq> c) s)) else None)"

definition py_rfind :: "char \<Rightarrow> string \<Rightarrow> nat option" where
  "py_rfind c s =
     (if c \<in> set s then Some (length s - 1 - length (takeWhile (\<lambda>x. x \<noteq> c) (rev s))) else None)"

definition loads_dict :: "env \<Rightarrow> string \<Rightarrow> (string \<times> json) list option" where
  "loads_dict e text = (case json_loads e text of Some (JObj d) \<Rightarrow> Some d | _ \<Rightarrow> None)"

definition safe_extract_json :: "env \<Rightarrow> string \<Rightarrow> (string \<times> json) list option" where
  "safe_extract_json e text =
     (if text = [] then None
      else case loads_dict e text of
        Some d \<Rightarrow> Some d
      | None \<Rightarrow>
          (case (py_find CHR ''{'' text, py_rfind CHR ''}'' text) of
             (Some start, Some end) \<Rightarrow>
               if start < end then loads_dict e (take (end + 1 - start) (drop start text))
               else None
           | _ \<Rightarrow> None))"

text \<open>\<open>safe_extract_json(raw) or {}\<close>\<close>

definition extract_or_empty :: "env \<Rightarrow> string \<Rightarrow> (string \<times> json) list" where
  "extract_or_empty e raw = (case safe_extract_json e raw of None \<Rightarrow> [] | Some d \<Rightarrow> d)"

section \<open>app.py: the generation client\<close>

datatype error = RuntimeError | IndexError

text \<open>The normalisation of the reply: \<open>.text\<close>, else \<open>.content\<close>, else \<open>str()\<close> when a
  model object exists; else the older call, with \<open>.text\<close>, else the first candidate's
  \<open>content\<close> or \<open>text\<close> or \<open>str()\<close>, else \<open>str()\<close>.\<close>

definition normalize :: "env \<Rightarrow> reply \<Rightarrow> string" where
  "normalize e r =
     (if model_present e then
        (case r_text r of
           Some t \<Rightarrow> t
         | None \<Rightarrow> (case r_content r of Some c \<Rightarrow> c | None \<Rightarrow> r_str r))
      else
        (case r_text r of
           Some t \<Rightarrow> t
         | None \<Rightarrow>
             (case r_candidates r of
                c # _ \<Rightarrow>
                  (case c_content c of
                     Some x \<Rightarrow> x
                   | None \<Rightarrow> (case c_text c of Some y \<Rightarrow> y | None \<Rightarrow> c_str c))
              | [] \<Rightarrow> r_str r)))"

text \<open>
  \<open>safe_generate(prompt, retries)\<close>: at most \<open>retries\<close> calls, the first reply wins,
  and \<open>RuntimeError\<close> is raised when every call raised. The second component is the
  number of calls made so far. The pause between two attempts is not modelled.
\<close>

fun safe_generate :: "env \<Rightarrow> prompt \<Rightarrow> nat \<Rightarrow> nat \<Rightarrow> (error + string) \<times> nat" where
  "safe_generate e p 0 n = (Inl RuntimeError, n)"
| "safe_generate e p (Suc k) n =
     (case backend e n p of
        Some r \<Rightarrow> (Inr (normalize e r), Suc n)
      | None \<Rightarrow> safe_generate e p k (Suc n))"

section \<open>app.py: the generators\<close>

fun py_join :: "string \<Rightarrow> string list \<Rightarrow> string" where
  "py_join sep [] = []"
| "py_join sep [x] = x"
| "py_join sep (x # y # ys) = x @ sep @ py_join sep (y # ys)"

text \<open>
  \<open>t.capitalize()\<close>: the first character in title case, the rest in lower case. The
  title case of two characters of the range, U+00B5 and U+00FF, lies outside it; a key
  outside the range is in no dict of the model, and the result is \<open>None\<close>.
\<close>

definition title_char :: "char \<Rightarrow> string option" where
  "title_char c = (let n = code c in
     if (97 \<le> n \<and> n \<le> 122) \<or> (224 \<le> n \<and> n \<le> 246) \<or> (248 \<le> n \<and> n \<le> 254)
     then Some [char_of (n - 32)]
     else if n = 223 then Some ''Ss''
     else if n = 181 \<or> n = 255 then None
     else Some [c])"

definition py_capitalize :: "string \<Rightarrow> string option" where
  "py_capitalize s =
     (case s of
        [] \<Rightarrow> Some []
      | c # cs \<Rightarrow> (case title_char c of None \<Rightarrow> None | Some t \<Rightarrow> Some (t @ py_lower cs)))"

text \<open>\<open>a or b\<close>\<close>

definition py_or :: "json \<Rightarrow> json \<Rightarrow> json" where
  "py_or a b = (if truthy a then a else b)"

text \<open>\<open>data.get(t) or data.get(t.capitalize()) or data.get(t.lower()) or []\<close>\<close>

definition lookup_questions :: "(string \<times> json) list \<Rightarrow> string \<Rightarrow> json" where
  "lookup_questions d t =
     py_or (py_get d t)
       (py_or (case py_capitalize t of None \<Rightarrow> JNull | Some k \<Rightarrow> py_get d k)
          (py_or (py_get d (py_lower t)) (JList [])))"

definition fallback_questions :: "string \<Rightarrow> string list" where
  "fallback_questions t =
     [''Briefly explain a key concept in '' @ t @ ''.'',
      ''How do you debug common issues in '' @ t @ ''?'',
      ''Describe a challenging '' @ t @ '' task you solved.'']"

definition clean_list :: "env \<Rightarrow> string \<Rightarrow> json list \<Rightarrow> string list" where
  "clean_list e t qs =
     (let qs1 = filter (\<lambda>q. q \<noteq> []) (map (\<lambda>q. py_strip (py_str e q)) qs);
          qs2 = (if length qs1 < 3 then qs1 @ fallback_questions t else qs1)
      in take 5 qs2)"

text \<open>The loop over \<open>techs\<close> that fills \<open>cleaned\<close>.\<close>

fun sanitize ::
  "env \<Rightarrow> (string \<times> json) list \<Rightarrow> string list \<Rightarrow> (string \<times> string list) list
     \<Rightarrow> (string \<times> string list) list" where
  "sanitize e d [] cleaned = cleaned"
| "sanitize e d (t # ts) cleaned =
     (case lookup_questions d t of
        JList qs \<Rightarrow> sanitize e d ts (dict_set t (clean_list e t qs) cleaned)
      | _ \<Rightarrow> sanitize e d ts cleaned)"

definition llm_generate_questions ::
  "env \<Rightarrow> string list \<Rightarrow> nat \<Rightarrow> (error + (string \<times> string list) list) \<times> nat" where
  "llm_generate_questions e techs n =
     (case safe_generate e (QuestionsPrompt (py_join '', '' techs)) 3 n of
        (Inl err, n') \<Rightarrow> (Inl err, n')
      | (Inr raw, n') \<Rightarrow> (Inr (sanitize e (extract_or_empty e raw) techs []), n'))"

record score_pack =
  sp_score :: "int option"
  sp_feedback :: "json option"

definition llm_score_answer :: "env \<Rightarrow> string \<Rightarrow> string \<Rightarrow> nat \<Rightarrow> (error + score_pack) \<times> nat" where
  "llm_score_answer e question ans n =
     (case safe_generate e (ScorePrompt question ans) 2 n of
        (Inl err, n') \<Rightarrow> (Inl err, n')
      | (Inr raw, n') \<Rightarrow>
          (let d = extract_or_empty e raw;
               score = py_get d ''score'';
               feedback = py_get d ''feedback''
           in (Inr \<lparr>sp_score = (if score \<noteq> JNull then py_int e score else None),
                    sp_feedback = none_if_null feedback\<rparr>, n')))"

definition llm_final_summary ::
  "env \<Rightarrow> (field \<times> string option) list \<Rightarrow> (string \<times> int) list \<Rightarrow> answer list \<Rightarrow> nat
     \<Rightarrow> (error + string) \<times> nat" where
  "llm_final_summary e info rs ans n =
     (case safe_generate e (SummaryPrompt info rs ans) 2 n of
        (Inl err, n') \<Rightarrow> (Inl err, n')
      | (Inr raw, n') \<Rightarrow> (Inr (py_strip raw), n'))"

section \<open>app.py: the session\<close>

datatype step = Greet | Fields | Ratings | Tech_q | Summary | Done

datatype role = User | Assistant

text \<open>
  What is said in the chat. The assistant's texts are fixed sentences with a few
  interpolated values; each is held by its kind and those values.
\<close>

datatype utterance =
    UserText string
  | Greeting
  | FieldPrompt field
  | FieldError field
  | RatingIntro
  | RatingFirst string
  | RatingNext string
  | RatingError
  | SkipRatings
  | Generating
  | Question string nat string
  | NoQuestions
  | Preparing
  | SummaryText string
  | Closing
  | ThanksAgain
  | SessionCompleted

record snapshot =
  snap_info :: "(field \<times> string option) list"
  snap_ratings :: "(string \<times> int) list"
  snap_answers :: "answer list"
  snap_summary :: "string option"

text \<open>
  \<open>st.session_state\<close>, and with it the two things outside the session that the script
  touches: the lines appended to \<open>candidates.jsonl\<close> (\<open>saved\<close>; the time stamp that
  \<open>save_simulated\<close> adds to a line is left out) and the number of calls made to the
  backend (\<open>calls\<close>).
\<close>

record session =
  history :: "(role \<times> utterance) list"
  step :: step
  field_index :: nat
  candidate :: "(field \<times> string option) list"
  techs :: "string list"
  ratings :: "(string \<times> int) list"
  qmap :: "(string \<times> string list) list"
  flat_questions :: "(string \<times> string) list"
  q_ptr :: nat
  answers :: "answer list"
  consent :: bool
  rating_idx :: "nat option"
  final_summary :: "string option"
  saved :: "snapshot list"
  calls :: nat

definition FIELDS :: "field list" where
  "FIELDS = [Full_Name, Email_Address, Phone_Number, Years_of_Experience,
             Desired_Positions, Current_Location, Tech_Stack]"

definition init_session :: session where
  "init_session =
     \<lparr>history = [], step = Greet, field_index = 0,
      candidate = map (\<lambda>f. (f, None)) FIELDS,
      techs = [], ratings = [], qmap = [], flat_questions = [], q_ptr = 0, answers = [],
      consent = False, rating_idx = None, final_summary = None, saved = [], calls = 0\<rparr>"

definition say :: "utterance \<Rightarrow> session \<Rightarrow> session" where
  "say text s = s\<lparr>history := history s @ [(Assistant, text)]\<rparr>"

definition save_simulated :: "snapshot \<Rightarrow> session \<Rightarrow> session" where
  "save_simulated snap s = s\<lparr>saved := saved s @ [snap]\<rparr>"

definition ask_next_field :: "session \<Rightarrow> session" where
  "ask_next_field s =
     (let i = field_index s in
      if length FIELDS \<le> i then s else say (FieldPrompt (FIELDS ! i)) s)"

text \<open>\<open>u.split()\<close>: the maximal runs of characters that are not white space.\<close>

function runs :: "('a \<Rightarrow> bool) \<Rightarrow> 'a list \<Rightarrow> 'a list list" where
  "runs P [] = []"
| "runs P (c # cs) =
     (if P c then (c # takeWhile P cs) # runs P (dropWhile P cs) else runs P cs)"
  by pat_completeness auto
termination
  by (relation "measure (\<lambda>(P, xs). length xs)") (auto simp: le_imp_less_Suc length_dropWhile_le)

definition py_split_ws :: "string \<Rightarrow> string list" where
  "py_split_ws s = runs (\<lambda>c. \<not> py_isspace c) s"

definition str_isdigit :: "string \<Rightarrow> bool" where
  "str_isdigit u = (u \<noteq> [] \<and> list_all py_isdigit u)"

definition store :: "field \<Rightarrow> string \<Rightarrow> session \<Rightarrow> session" where
  "store f v s = s\<lparr>candidate := dict_set f (Some v) (candidate s)\<rparr>"

text \<open>\<open>validate_and_store\<close> returns the message that asks again, or \<open>None\<close> after it has
  stored the value.\<close>

fun validate_and_store :: "field \<Rightarrow> string \<Rightarrow> session \<Rightarrow> session \<times> utterance option" where
  "validate_and_store Full_Name user_text s =
     (let u = py_strip user_text in
      if length (py_split_ws u) < 2 then (s, Some (FieldError Full_Name))
      else (store Full_Name (anonymize u) s, None))"
| "validate_and_store Email_Address user_text s =
     (let u = py_strip user_text in
      if CHR ''@'' \<notin> set u \<or> CHR ''.'' \<notin> set u then (s, Some (FieldError Email_Address))
      else (store Email_Address (mask_email u) s, None))"
| "validate_and_store Phone_Number user_text s =
     (let u = py_strip user_text; digits = filter py_isdigit u in
      if \<not> (7 \<le> length digits \<and> length digits \<le> 15) then (s, Some (FieldError Phone_Number))
      else (store Phone_Number (anonymize u) s, None))"
| "validate_and_store Years_of_Experience user_text s =
     (let u = py_strip user_text in
      if \<not> str_isdigit u then (s, Some (FieldError Years_of_Experience))
      else (store Years_of_Experience u s, None))"
| "validate_and_store Desired_Positions user_text s =
     (let u = py_strip user_text in
      if length u < 2 then (s, Some (FieldError Desired_Positions))
      else (store Desired_Positions u s, None))"
| "validate_and_store Current_Location user_text s =
     (let u = py_strip user_text in
      if length u < 2 then (s, Some (FieldError Current_Location))
      else (store Current_Location u s, None))"
| "validate_and_store Tech_Stack user_text s =
     (let u = py_strip user_text; ts = tech_list_from_input u in
      if ts = [] then (s, Some (FieldError Tech_Stack))
      else ((store Tech_Stack (py_join '', '' ts) s)\<lparr>techs := ts\<rparr>, None))"

definition ensure_greeting_once :: "session \<Rightarrow> session" where
  "ensure_greeting_once s = (if history s = [] then say Greeting s else s)"

text \<open>The block that runs at the top of every run of the script, before the input is read.\<close>

definition greet_block :: "session \<Rightarrow> session" where
  "greet_block s =
     (if step s = Greet
      then ask_next_field ((ensure_greeting_once s)\<lparr>step := Fields, field_index := 0\<rparr>)
      else s)"

text \<open>How the handling of a message ends: the script ran to its end, \<open>st.stop()\<close> was
  called, or an exception left the script.\<close>

datatype outcome = Completed | Stopped | Raised error

text \<open>\<open>xs.index(x)\<close> for an \<open>x\<close> that occurs in \<open>xs\<close>.\<close>

definition py_index :: "'a list \<Rightarrow> 'a \<Rightarrow> nat" where
  "py_index xs x = length (takeWhile (\<lambda>y. y \<noteq> x) xs)"

definition handle_fields :: "session \<Rightarrow> string \<Rightarrow> session \<times> outcome" where
  "handle_fields s user_input =
     (if length FIELDS \<le> field_index s then (s, Raised IndexError)
      else
        (case validate_and_store (FIELDS ! field_index s) user_input s of
           (s1, Some err) \<Rightarrow> (say err s1, Completed)
         | (s1, None) \<Rightarrow>
             (let s2 = s1\<lparr>field_index := field_index s1 + 1\<rparr> in
              if field_index s2 < length FIELDS then (ask_next_field s2, Completed)
              else
                (let s3 = s2\<lparr>step := Ratings, rating_idx := Some 0\<rparr> in
                 case techs s3 of
                   t # _ \<Rightarrow> (say (RatingFirst t) (say RatingIntro s3), Completed)
                 | [] \<Rightarrow> ((say SkipRatings s3)\<lparr>step := Tech_q, q_ptr := 0\<rparr>, Completed)))))"

text \<open>The flattening of the question map, in the order of \<open>techs\<close>.\<close>

definition flatten :: "string list \<Rightarrow> (string \<times> string list) list \<Rightarrow> (string \<times> string) list" where
  "flatten ts qm =
     concat (map (\<lambda>t. map (\<lambda>q. (t, q)) (case map_of qm t of None \<Rightarrow> [] | Some qs \<Rightarrow> qs)) ts)"

definition handle_ratings :: "env \<Rightarrow> session \<Rightarrow> string \<Rightarrow> session \<times> outcome" where
  "handle_ratings e s user_input =
     (let ts = techs s; idx = (case rating_idx s of None \<Rightarrow> 0 | Some i \<Rightarrow> i) in
      if idx < length ts then
        (case parse_1_to_10 user_input of
           None \<Rightarrow> (say RatingError s, Completed)
         | Some val \<Rightarrow>
             (let s1 = s\<lparr>ratings := dict_set (ts ! idx) val (ratings s)\<rparr>;
                  idx' = idx + 1;
                  s2 = s1\<lparr>rating_idx := Some idx'\<rparr>
              in if idx' < length ts then (say (RatingNext (ts ! idx')) s2, Completed)
                 else
                   (let s3 = say Generating s2 in
                    case llm_generate_questions e ts (calls s3) of
                      (Inl err, n) \<Rightarrow> (s3\<lparr>calls := n\<rparr>, Raised err)
                    | (Inr qm, n) \<Rightarrow>
                        (let s4 = s3\<lparr>calls := n, qmap := qm\<rparr>;
                             flat = flatten ts qm;
                             s5 = s4\<lparr>flat_questions := flat, q_ptr := 0, step := Tech_q\<rparr>
                         in case flat of
                              (t, q) # _ \<Rightarrow> (say (Question t 1 q) s5, Completed)
                            | [] \<Rightarrow>
                                ((say NoQuestions s5)
                                   \<lparr>step := Fields, field_index := py_index FIELDS Tech_Stack\<rparr>,
                                 Completed)))))
      else (s, Completed))"

definition handle_tech_q :: "env \<Rightarrow> session \<Rightarrow> string \<Rightarrow> session \<times> outcome" where
  "handle_tech_q e s user_input =
     (let ptr = q_ptr s; flat = flat_questions s in
      if ptr < length flat then
        (let tech = fst (flat ! ptr); qtext = snd (flat ! ptr);
             ans = py_strip user_input;
             (scored, n) = llm_score_answer e qtext ans (calls s);
             pack = (case scored of
                       Inl err \<Rightarrow> \<lparr>sp_score = None, sp_feedback = None\<rparr>
                     | Inr p \<Rightarrow> p);
             s1 = s\<lparr>calls := n,
                    answers := answers s @
                      [\<lparr>a_tech = tech, a_question = qtext, a_answer = ans,
                        a_score = sp_score pack, a_feedback = sp_feedback pack\<rparr>]\<rparr>;
             ptr' = ptr + 1;
             s2 = s1\<lparr>q_ptr := ptr'\<rparr>
         in if ptr' < length flat then
              (let next_tech = fst (flat ! ptr'); next_q = snd (flat ! ptr');
                   count_for_tech = 1 + length (filter (\<lambda>x. fst x = next_tech) (take ptr' flat))
               in (say (Question next_tech count_for_tech next_q) s2, Completed))
            else
              (let s3 = say Preparing (s2\<lparr>step := Summary\<rparr>);
                   (summ, n') = llm_final_summary e (candidate s3) (ratings s3) (answers s3) (calls s3);
                   final = (case summ of
                              Inl err \<Rightarrow> ''Summary unavailable due to a temporary issue.''
                            | Inr t \<Rightarrow> t);
                   s4 = s3\<lparr>calls := n', final_summary := Some final\<rparr>;
                   s5 = say Closing (say (SummaryText final) s4);
                   s6 = (if consent s5
                         then save_simulated
                                \<lparr>snap_info = candidate s5, snap_ratings = ratings s5,
                                 snap_answers = answers s5, snap_summary = Some final\<rparr> s5
                         else s5)
               in (s6\<lparr>step := Done\<rparr>, Completed)))
      else (s, Completed))"

text \<open>The closing of the session on an end keyword, before the dispatch on \<open>step\<close>.\<close>

definition end_session :: "session \<Rightarrow> session" where
  "end_session s =
     (let s1 = say Closing s in
      if consent s1
      then save_simulated
             \<lparr>snap_info = candidate s1, snap_ratings = ratings s1,
              snap_answers = answers s1, snap_summary = None\<rparr> s1
      else s1)"

definition dispatch :: "env \<Rightarrow> session \<Rightarrow> string \<Rightarrow> session \<times> outcome" where
  "dispatch e s user_input =
     (case step s of
        Fields \<Rightarrow> handle_fields s user_input
      | Ratings \<Rightarrow> handle_ratings e s user_input
      | Tech_q \<Rightarrow> handle_tech_q e s user_input
      | Summary \<Rightarrow> (say ThanksAgain s, Completed)
      | Done \<Rightarrow> (say SessionCompleted s, Completed)
      | Greet \<Rightarrow> (s, Completed))"

text \<open>The block under \<open>if user_input:\<close>.\<close>

definition handle_input :: "env \<Rightarrow> session \<Rightarrow> string \<Rightarrow> session \<times> outcome" where
  "handle_input e s user_input =
     (if user_input = [] then (s, Completed)
      else if is_end_message user_input then (end_session s, Stopped)
      else dispatch e (s\<lparr>history := history s @ [(User, UserText user_input)]\<rparr>) user_input)"

text \<open>One run of the script: with the message the user sent, or with none (the page is
  loaded or drawn again).\<close>

definition run_script :: "env \<Rightarrow> session \<Rightarrow> string option \<Rightarrow> session \<times> outcome" where
  "run_script e s inp =
     (case inp of
        None \<Rightarrow> (greet_block s, Completed)
      | Some user_input \<Rightarrow> handle_input e (greet_block s) user_input)"

text \<open>A conversation: the runs of the script on a list of inputs, the session carried from
  one run to the next whatever the outcome (an exception ends a run, not the session).\<close>

fun run_all :: "env \<Rightarrow> session \<Rightarrow> string option list \<Rightarrow> session" where
  "run_all e s [] = s"
| "run_all e s (i # is) = run_all e (fst (run_script e s i)) is"

text \<open>The button that erases the session: every key is deleted and the script runs again.
  The file and the backend are not touched.\<close>

definition erase :: "session \<Rightarrow> session" where
  "erase s = greet_block (init_session\<lparr>saved := saved s, calls := calls s\<rparr>)"

text \<open>The states a session can be in: from the first load of the page, by messages, by
  ticking or unticking the consent box, and by erasing.\<close>

inductive reachable :: "env \<Rightarrow> session \<Rightarrow> bool" for e :: env where
  r_init: "reachable e (greet_block init_session)"
| r_run: "reachable e s \<Longrightarrow> reachable e (fst (run_script e s inp))"
| r_consent: "reachable e s \<Longrightarrow> reachable e (s\<lparr>consent := b\<rparr>)"
| r_erase: "reachable e s \<Longrightarrow> reachable e (erase s)"

section \<open>Notions used in the statements\<close>

text \<open>
  The words of a text are its maximal runs of word characters; a rating word is one of
  \<open>1\<close> to \<open>9\<close> and \<open>10\<close>.
\<close>

definition word_tokens :: "string \<Rightarrow> string list" where
  "word_tokens s = runs re_word s"

definition rating_words :: "(string \<times> int) list" where
  "rating_words =
     [(''1'', 1), (''2'', 2), (''3'', 3), (''4'', 4), (''5'', 5),
      (''6'', 6), (''7'', 7), (''8'', 8), (''9'', 9), (''10'', 10)]"

definition first_rating :: "string list \<Rightarrow> int option" where
  "first_rating ws = (case List.find (\<lambda>w. map_of rating_words w \<noteq> None) ws of
                        None \<Rightarrow> None
                      | Some w \<Rightarrow> map_of rating_words w)"

text \<open>Whether the value of a field is accepted; the session plays no part in it.\<close>

definition accepted :: "field \<Rightarrow> string \<Rightarrow> bool" where
  "accepted f u = (snd (validate_and_store f u init_session) = None)"

text \<open>A run of the script validates a field value with success: a message arrives while
  the fields are collected, it is not an end keyword, and the current field accepts it.\<close>

definition field_accepted :: "session \<Rightarrow> string option \<Rightarrow> bool" where
  "field_accepted s inp =
     (case inp of
        None \<Rightarrow> False
      | Some u \<Rightarrow>
          step s = Fields \<and> u \<noteq> [] \<and> \<not> is_end_message u
          \<and> field_index s < length FIELDS \<and> accepted (FIELDS ! field_index s) u)"

text \<open>What holds of \<open>step\<close> and \<open>field_index\<close> between two runs of the script: while the
  fields are collected the index points at a field, and afterwards it is past the last.\<close>

definition session_inv :: "session \<Rightarrow> bool" where
  "session_inv s =
     (step s \<noteq> Greet
      \<and> (if step s = Fields then field_index s < length FIELDS
         else field_index s = length FIELDS))"

subsection \<open>Environments and inputs for the examples\<close>

text \<open>A backend of which every call raises.\<close>

definition env_down :: env where
  "env_down =
     \<lparr>json_loads = (\<lambda>s. None), py_repr = (\<lambda>v. ''?''), int_of_str = (\<lambda>s. None),
      model_present = True, backend = (\<lambda>n p. None)\<rparr>"

text \<open>A backend that answers every prompt with a JSON object in which \<open>Python\<close> is
  mapped to a string, not a list; \<open>json_loads\<close> parses this one document.\<close>

definition nonlist_doc :: string where
  \<open>nonlist_doc = ''{"Python": "x"}''\<close>

definition env_nonlist :: env where
  "env_nonlist =
     \<lparr>json_loads = (\<lambda>s. if s = nonlist_doc then Some (JObj [(''Python'', JStr ''x'')]) else None),
      py_repr = (\<lambda>v. ''?''), int_of_str = (\<lambda>s. None),
      model_present = True,
      backend = (\<lambda>n p. Some (Reply (Some nonlist_doc) None [] []))\<rparr>"

text \<open>A backend that raises on its first call and on every prompt that does not ask for
  questions, and answers the other calls with a JSON object that has one usable question
  and one blank one under the lower-cased name.\<close>

definition short_doc :: string where
  \<open>short_doc = ''{"python": [" What is a list? ", "  "]}''\<close>

definition env_short :: env where
  "env_short =
     \<lparr>json_loads =
        (\<lambda>s. if s = short_doc
              then Some (JObj [(''python'', JList [JStr '' What is a list? '', JStr ''  ''])])
              else None),
      py_repr = (\<lambda>v. ''?''), int_of_str = (\<lambda>s. None),
      model_present = True,
      backend =
        (\<lambda>n p. case p of
                 QuestionsPrompt ts \<Rightarrow>
                   if n = 0 then None else Some (Reply (Some short_doc) None [] [])
               | _ \<Rightarrow> None)\<rparr>"

text \<open>The messages of a candidate up to the tech stack, after the first load of the page.\<close>

definition profile_inputs :: "string option list" where
  "profile_inputs =
     [None, Some ''Ada Lovelace'', Some ''ada@example.com'', Some ''555 0100 200'',
      Some ''12'', Some ''Engineer'', Some ''London'', Some ''Python'']"

section \<open>Facts about the text utilities\<close>

lemma code_simps [simp]: "code c = of_char c"
  by (simp add: code_def)

lemma lower_char_space: "py_isspace c \<Longrightarrow> lower_char c = c"
  by (auto simp: py_isspace_def lower_char_def Let_def)

lemma strip_sandwich:
  assumes a: "list_all py_isspace a" and b: "list_all py_isspace b"
    and v: "v \<noteq> []" and h: "\<not> py_isspace (hd v)" and l: "\<not> py_isspace (last v)"
  shows "py_strip (a @ v @ b) = v"
proof -
  have 1: "dropWhile py_isspace (a @ v @ b) = v @ b"
    using a v h by (cases v) (auto simp: dropWhile_append list_all_iff)
  have "dropWhile py_isspace (rev b @ rev v) = rev v"
    using b v l by (cases v rule: rev_cases) (auto simp: dropWhile_append list_all_iff)
  with 1 show ?thesis
    by (simp add: py_strip_def py_lstrip_def py_rstrip_def)
qed

lemma keyword_ends:
  assumes k: "k \<in> END_KEYWORDS" and v: "py_lower v = k"
  shows "v \<noteq> [] \<and> \<not> py_isspace (hd v) \<and> \<not> py_isspace (last v)"
proof -
  have kne: "k \<noteq> []" and kh: "\<not> py_isspace (hd k)" and kl: "\<not> py_isspace (last k)"
    using k by (auto simp: END_KEYWORDS_def py_isspace_def)
  from kne v have vne: "v \<noteq> []" by (auto simp: py_lower_def)
  have "hd k = lower_char (hd v)" "last k = lower_char (last v)"
    using v vne by (auto simp: py_lower_def hd_map last_map)
  with kh kl lower_char_space vne show ?thesis by metis
qed

text \<open>
  C8. \<open>is_end_message s\<close> holds exactly when the trimmed, lower-cased \<open>s\<close> is one of the
  seven end keywords; it holds for every keyword written in any letter case (\<open>v\<close> with
  \<open>py_lower v = k\<close>) between any white space (\<open>a\<close>, \<open>b\<close>); it does not hold for
  \<open>goodbye\<close>.
\<close>

theorem end_keywords_exact:
  "(is_end_message s \<longleftrightarrow>
      py_lower (py_strip s) \<in> {''bye'', ''exit'', ''quit'', ''stop'', ''end'', ''thank you'', ''thanks''})
   \<and> (\<forall>k \<in> {''bye'', ''exit'', ''quit'', ''stop'', ''end'', ''thank you'', ''thanks''}.
        \<forall>a v b. list_all py_isspace a \<and> list_all py_isspace b \<and> py_lower v = k
                  \<longrightarrow> is_end_message (a @ v @ b))
   \<and> \<not> is_end_message ''goodbye''"
proof (intro conjI ballI allI impI)
  show "is_end_message s \<longleftrightarrow>
      py_lower (py_strip s) \<in> {''bye'', ''exit'', ''quit'', ''stop'', ''end'', ''thank you'', ''thanks''}"
    by (simp add: is_end_message_def END_KEYWORDS_def)
next
  fix k a v b
  assume k: "k \<in> {''bye'', ''exit'', ''quit'', ''stop'', ''end'', ''thank you'', ''thanks''}"
    and h: "list_all py_isspace a \<and> list_all py_isspace b \<and> py_lower v = k"
  from k have k': "k \<in> END_KEYWORDS" by (simp add: END_KEYWORDS_def)
  from keyword_ends [OF k'] h have "py_strip (a @ v @ b) = v"
    by (intro strip_sandwich) auto
  with h k' show "is_end_message (a @ v @ b)"
    by (simp add: is_end_message_def)
next
  show "\<not> is_end_message ''goodbye''"
    by code_simp
qed

theorem end_keywords_exact_witness:
  "is_end_message ''  Thank YOU '' \<and> is_end_message ''QUIT'' \<and> \<not> is_end_message ''goodbye''"
proof -
  have 1: "list_all py_isspace ''  '' \<and> list_all py_isspace '' ''
           \<and> py_lower ''Thank YOU'' = ''thank you''"
    by code_simp
  have 2: "list_all py_isspace [] \<and> list_all py_isspace [] \<and> py_lower ''QUIT'' = ''quit''"
    by code_simp
  from end_keywords_exact [of "[]"] 1 2 show ?thesis
    by (metis append_Nil append_Nil2 insertI1 insertI2 append.simps)
qed

lemma split_at_first:
  assumes "CHR ''@'' \<notin> set user"
  shows "local_part (user @ ''@'' @ domain) = user"
    and "domain_part (user @ ''@'' @ domain) = domain"
  using assms by (simp_all add: local_part_def domain_part_def takeWhile_append dropWhile_append)

lemma mask_email_general:
  assumes e: "py_strip e = user @ ''@'' @ domain"
    and u: "CHR ''@'' \<notin> set user" and ne: "user \<noteq> []"
  shows "mask_email e = hd user # replicate (max 1 (length user - 1)) CHR ''*'' @ ''@'' @ domain"
  using split_at_first [OF u, of domain] ne
  by (simp add: mask_email_def e Let_def)

lemma mask_email_fallback:
  assumes "CHR ''@'' \<notin> set (py_strip e) \<or> local_part (py_strip e) = []"
  shows "mask_email e = anonymize (py_strip e)"
  using assms by (auto simp: mask_email_def Let_def)

text \<open>
  C5, as stated, fails: the local part \<open>jdoe\<close> has three characters after the first, and
  \<open>mask_email\<close> writes three asterisks, not four.
\<close>

theorem mask_email_jdoe_counterexample:
  "mask_email ''jdoe@example.com'' \<noteq> ''j****@example.com''"
  by code_simp

text \<open>
  C5, amended. \<open>mask_email\<close> of \<open>jdoe@example.com\<close> is \<open>j***@example.com\<close>. For a
  trimmed email \<open>user@domain\<close> with a non-empty \<open>user\<close> that has no \<open>@\<close>, it keeps the
  first character of \<open>user\<close>, writes one asterisk for each further character (and one
  when there is none), and leaves \<open>domain\<close> as it is; without an \<open>@\<close>, or with nothing
  before the first \<open>@\<close>, it is \<open>anonymize\<close> of the trimmed text.
\<close>

theorem mask_email_shape:
  "mask_email ''jdoe@example.com'' = ''j***@example.com''
   \<and> (py_strip e = user @ ''@'' @ domain \<and> CHR ''@'' \<notin> set user \<and> user \<noteq> [] \<longrightarrow>
        mask_email e = hd user # replicate (max 1 (length user - 1)) CHR ''*'' @ ''@'' @ domain)
   \<and> (CHR ''@'' \<notin> set (py_strip e) \<or> local_part (py_strip e) = [] \<longrightarrow>
        mask_email e = anonymize (py_strip e))"
proof (intro conjI impI)
  show "mask_email ''jdoe@example.com'' = ''j***@example.com''" by code_simp
next
  assume "py_strip e = user @ ''@'' @ domain \<and> CHR ''@'' \<notin> set user \<and> user \<noteq> []"
  then show "mask_email e
             = hd user # replicate (max 1 (length user - 1)) CHR ''*'' @ ''@'' @ domain"
    using mask_email_general by blast
next
  assume "CHR ''@'' \<notin> set (py_strip e) \<or> local_part (py_strip e) = []"
  then show "mask_email e = anonymize (py_strip e)" by (rule mask_email_fallback)
qed

theorem mask_email_shape_witness:
  "mask_email '' bob.k@mail.org '' = ''b****@mail.org''
   \<and> mask_email ''no at sign'' = ''n* a* s***''"
proof -
  have 1: "py_strip '' bob.k@mail.org '' = ''bob.k'' @ ''@'' @ ''mail.org''
           \<and> CHR ''@'' \<notin> set ''bob.k'' \<and> ''bob.k'' \<noteq> []"
    by code_simp
  have 2: "CHR ''@'' \<notin> set (py_strip ''no at sign'')" by code_simp
  have 3: "anonymize (py_strip ''no at sign'') = ''n* a* s***''" by code_simp
  have 4: "hd ''bob.k'' # replicate (max 1 (length ''bob.k'' - 1)) CHR ''*'' @ ''@'' @ ''mail.org''
           = ''b****@mail.org''"
    by code_simp
  from mask_email_shape [of "'' bob.k@mail.org ''" "''bob.k''" "''mail.org''"] 1 4
  have a: "mask_email '' bob.k@mail.org '' = ''b****@mail.org''" by simp
  from mask_email_shape [of "''no at sign''" "[]" "[]"] 2 3
  have b: "mask_email ''no at sign'' = ''n* a* s***''" by simp
  from a b show ?thesis by simp
qed

text \<open>
  C10. \<open>mask_email\<close> of \<open>a@x.com\<close> is \<open>a*@x.com\<close>. For a trimmed email \<open>user@domain\<close>
  with a non-empty \<open>user\<close> that has no \<open>@\<close>, the part of the result before its first
  \<open>@\<close> contains an asterisk; and when \<open>user\<close> is one character, the result is that
  character, one asterisk, \<open>@\<close> and the domain, its local part one longer than \<open>user\<close>.
\<close>

theorem mask_email_one_char:
  "mask_email ''a@x.com'' = ''a*@x.com''
   \<and> (py_strip e = user @ ''@'' @ domain \<and> CHR ''@'' \<notin> set user \<and> user \<noteq> [] \<longrightarrow>
        CHR ''*'' \<in> set (local_part (mask_email e))
        \<and> (length user = 1 \<longrightarrow>
             mask_email e = user @ ''*'' @ ''@'' @ domain
             \<and> length (local_part (mask_email e)) = length user + 1))"
proof (intro conjI impI)
  show "mask_email ''a@x.com'' = ''a*@x.com''" by code_simp
next
  assume h: "py_strip e = user @ ''@'' @ domain \<and> CHR ''@'' \<notin> set user \<and> user \<noteq> []"
  then have m: "mask_email e
                = (hd user # replicate (max 1 (length user - 1)) CHR ''*'') @ ''@'' @ domain"
    using mask_email_general by simp
  have "CHR ''@'' \<notin> set (hd user # replicate (max 1 (length user - 1)) CHR ''*'')"
    using h by (cases user) auto
  then have lp: "local_part (mask_email e)
                 = hd user # replicate (max 1 (length user - 1)) CHR ''*''"
    unfolding m by (rule split_at_first)
  show "CHR ''*'' \<in> set (local_part (mask_email e))"
    unfolding lp by simp
  {
    assume one: "length user = 1"
    then obtain c where c: "user = [c]" by (cases user) auto
    show "mask_email e = user @ ''*'' @ ''@'' @ domain"
      using m c by simp
    show "length (local_part (mask_email e)) = length user + 1"
      unfolding lp using c by simp
  }
qed

theorem mask_email_one_char_witness:
  "mask_email ''  z@q.io'' = ''z*@q.io''
   \<and> CHR ''*'' \<in> set (local_part (mask_email ''  z@q.io''))
   \<and> length (local_part (mask_email ''  z@q.io'')) = 2"
proof -
  have 1: "py_strip ''  z@q.io'' = ''z'' @ ''@'' @ ''q.io''
           \<and> CHR ''@'' \<notin> set ''z'' \<and> ''z'' \<noteq> []"
    by code_simp
  have 2: "length ''z'' = 1" by simp
  from mask_email_one_char [of "''  z@q.io''" "''z''" "''q.io''"] 1 2
  have "CHR ''*'' \<in> set (local_part (mask_email ''  z@q.io''))"
    and "mask_email ''  z@q.io'' = ''z'' @ ''*'' @ ''@'' @ ''q.io''"
    and "length (local_part (mask_email ''  z@q.io'')) = length ''z'' + 1"
    by blast+
  then show ?thesis by (simp add: local_part_def)
qed

lemma tech_list_bounds:
  "length (tech_list_from_input s) \<le> 10
   \<and> (\<forall>t \<in> set (tech_list_from_input s). t \<noteq> [] \<and> length t \<le> 50)"
  by (auto simp: tech_list_from_input_def Let_def dest!: in_set_takeD)

lemma split_nonempty: "py_split_char c s \<noteq> []"
  by (induction s) (simp_all add: Let_def)

lemma split_no_sep: "c \<notin> set p \<Longrightarrow> py_split_char c p = [p]"
  by (induction p) (auto simp: Let_def)

lemma split_append: "c \<notin> set p \<Longrightarrow> py_split_char c (p @ c # r) = p # py_split_char c r"
  by (induction p) (auto simp: Let_def)

lemma split_join:
  "ps \<noteq> [] \<Longrightarrow> \<forall>p \<in> set ps. c \<notin> set p \<Longrightarrow> py_split_char c (py_join [c] ps) = ps"
proof (induction ps)
  case Nil
  then show ?case by simp
next
  case (Cons p ps)
  show ?case
  proof (cases ps)
    case Nil
    with Cons.prems show ?thesis by (simp add: split_no_sep)
  next
    case (Cons q qs)
    with Cons.prems Cons.IH show ?thesis by (simp add: split_append)
  qed
qed

lemma join_Cons_Cons: "py_join sep ((a # x) # xs) = a # py_join sep (x # xs)"
  by (cases xs) simp_all

lemma join_split:
  "py_join [c] (py_split_char c s) = s \<and> (\<forall>p \<in> set (py_split_char c s). c \<notin> set p)"
proof (induction s)
  case Nil
  show ?case by simp
next
  case (Cons a s)
  obtain r rs where r: "py_split_char c s = r # rs"
    using split_nonempty [of c s] by (cases "py_split_char c s") auto
  from Cons have ih: "py_join [c] (r # rs) = s" and ns: "\<forall>p \<in> set (r # rs). c \<notin> set p"
    unfolding r by blast+
  show ?case
  proof (cases "a = c")
    case True
    have "py_split_char c (a # s) = [] # r # rs" using True r by (simp add: Let_def)
    with ih ns True show ?thesis by simp
  next
    case False
    have "py_split_char c (a # s) = (a # r) # rs" using False r by (simp add: Let_def)
    with ih ns False show ?thesis by (simp add: join_Cons_Cons)
  qed
qed

text \<open>
  C4, as stated, fails: \<open>Python, Python\<close> is accepted as a tech stack, and \<open>techs\<close> then
  holds \<open>Python\<close> twice.
\<close>

theorem techs_distinct_counterexample:
  "snd (validate_and_store Tech_Stack ''Python, Python'' init_session) = None
   \<and> \<not> distinct (techs (fst (validate_and_store Tech_Stack ''Python, Python'' init_session)))"
  by code_simp

text \<open>
  C4, amended. After a successful validation of the tech stack, \<open>techs\<close> holds one to ten
  names, each non-empty and of at most 50 characters. However the trimmed input is
  written as pieces joined by commas, \<open>techs\<close> is the list of the trimmed pieces that are
  non-empty and contain an ASCII letter, in their order, each cut to its first 50
  characters, and of this list the first ten. The pieces are never compared with each
  other, and the list need not be distinct: for \<open>Python, Python\<close> it is \<open>Python\<close>,
  \<open>Python\<close>.
\<close>

theorem techs_after_validation:
  assumes ok: "validate_and_store Tech_Stack u s = (s', None)"
  shows "techs s' \<noteq> [] \<and> length (techs s') \<le> 10
         \<and> (\<forall>t \<in> set (techs s'). t \<noteq> [] \<and> length t \<le> 50)
         \<and> (\<forall>ps. ps \<noteq> [] \<and> (\<forall>p \<in> set ps. CHR '','' \<notin> set p) \<and> py_strip u = py_join '','' ps
               \<longrightarrow> techs s' =
                     take 10 (map (take 50)
                       (filter (\<lambda>t. t \<noteq> [] \<and> list_ex ascii_letter t) (map py_strip ps))))
         \<and> techs (fst (validate_and_store Tech_Stack ''Python, Python'' init_session))
             = [''Python'', ''Python'']"
proof -
  have ex: "techs (fst (validate_and_store Tech_Stack ''Python, Python'' init_session))
             = [''Python'', ''Python'']"
    by code_simp
  from ok have t: "techs s' = tech_list_from_input (py_strip u)"
    and ne: "tech_list_from_input (py_strip u) \<noteq> []"
    by (auto simp: Let_def store_def split: if_splits)
  have "\<forall>ps. ps \<noteq> [] \<and> (\<forall>p \<in> set ps. CHR '','' \<notin> set p) \<and> py_strip u = py_join '','' ps
               \<longrightarrow> techs s' =
                     take 10 (map (take 50)
                       (filter (\<lambda>t. t \<noteq> [] \<and> list_ex ascii_letter t) (map py_strip ps)))"
  proof (intro allI impI)
    fix ps
    assume h: "ps \<noteq> [] \<and> (\<forall>p \<in> set ps. CHR '','' \<notin> set p) \<and> py_strip u = py_join '','' ps"
    then have "py_split_char CHR '','' (py_strip u) = ps"
      using split_join [of ps "CHR '',''"] by simp
    then show "techs s' =
                     take 10 (map (take 50)
                       (filter (\<lambda>t. t \<noteq> [] \<and> list_ex ascii_letter t) (map py_strip ps)))"
      by (simp add: t tech_list_from_input_def Let_def)
  qed
  moreover from t ne tech_list_bounds [of "py_strip u"]
  have "techs s' \<noteq> [] \<and> length (techs s') \<le> 10
         \<and> (\<forall>t \<in> set (techs s'). t \<noteq> [] \<and> length t \<le> 50)"
    by simp
  ultimately show ?thesis using ex by blast
qed

theorem techs_after_validation_witness:
  "techs (fst (validate_and_store Tech_Stack ''Python, , React , Node.js, React'' init_session))
     = [''Python'', ''React'', ''Node.js'', ''React'']"
proof -
  let ?ps = "[''Python'', '' '', '' React '', '' Node.js'', '' React'']"
  have 1: "validate_and_store Tech_Stack ''Python, , React , Node.js, React'' init_session
     = (fst (validate_and_store Tech_Stack ''Python, , React , Node.js, React'' init_session), None)"
    by code_simp
  have 2: "?ps \<noteq> [] \<and> (\<forall>p \<in> set ?ps. CHR '','' \<notin> set p)
           \<and> py_strip ''Python, , React , Node.js, React'' = py_join '','' ?ps"
    by code_simp
  have 3: "take 10 (map (take 50)
             (filter (\<lambda>t. t \<noteq> [] \<and> list_ex ascii_letter t) (map py_strip ?ps)))
           = [''Python'', ''React'', ''Node.js'', ''React'']"
    by code_simp
  from techs_after_validation [OF 1] 2 have
    "techs (fst (validate_and_store Tech_Stack ''Python, , React , Node.js, React'' init_session))
       = take 10 (map (take 50)
             (filter (\<lambda>t. t \<noteq> [] \<and> list_ex ascii_letter t) (map py_strip ?ps)))"
    by blast
  with 3 show ?thesis by simp
qed

section \<open>Facts about the rating parser\<close>

lemma rating_single:
  "map_of rating_words [c] = (if digit_1_9 c then Some (int (code c) - 48) else None)"
  by (auto simp: rating_words_def digit_1_9_def)

lemma rating_double:
  "map_of rating_words (c # d # r) = (if c = CHR ''1'' \<and> d = CHR ''0'' \<and> r = [] then Some 10 else None)"
  by (auto simp: rating_words_def)

lemma rating_range: "map_of rating_words w = Some n \<Longrightarrow> 1 \<le> n \<and> n \<le> 10"
  by (auto simp: rating_words_def split: if_splits)

lemma word_zero: "re_word CHR ''0''"
  by (simp add: re_word_def py_isnumeric_def py_isdigit_def)

lemma match_here_token:
  assumes p: "\<not> word_opt prev" and c: "re_word c"
  shows "match_rating_here prev (c # cs) = map_of rating_words (c # takeWhile re_word cs)"
proof (cases cs)
  case Nil
  with p c show ?thesis
    by (simp add: match_rating_here_def word_boundary_def head_def word_opt_def rating_single)
next
  case (Cons d ds)
  show ?thesis
  proof (cases "re_word d")
    case True
    have "takeWhile re_word ds = [] \<longleftrightarrow> \<not> word_opt (head ds)"
      by (cases ds) (auto simp: head_def word_opt_def)
    with True p c Cons show ?thesis
      by (simp add: match_rating_here_def word_boundary_def head_def word_opt_def rating_double)
  next
    case False
    with word_zero have "d \<noteq> CHR ''0''" by auto
    with False p c Cons show ?thesis
      by (simp add: match_rating_here_def word_boundary_def head_def word_opt_def rating_single)
  qed
qed

lemma match_here_no_boundary:
  "word_opt prev = word_opt (head s) \<Longrightarrow> match_rating_here prev s = None"
  by (simp add: match_rating_here_def word_boundary_def)

lemma digit_is_word: "digit_1_9 c \<Longrightarrow> re_word c"
  by (auto simp: digit_1_9_def re_word_def py_isnumeric_def py_isdigit_def)

lemma match_here_nonword:
  assumes n: "\<not> re_word c"
  shows "match_rating_here prev (c # cs) = None"
proof -
  have "\<not> digit_1_9 c"
    using n digit_is_word by blast
  moreover have "c \<noteq> CHR ''1''"
    using n by (auto simp: re_word_def py_isnumeric_def py_isdigit_def)
  ultimately show ?thesis
    by (auto simp: match_rating_here_def split: list.splits)
qed

lemma first_rating_Cons:
  "first_rating (w # ws) = (case map_of rating_words w of Some n \<Rightarrow> Some n | None \<Rightarrow> first_rating ws)"
  by (auto simp: first_rating_def split: option.splits)

lemma first_rating_Nil: "first_rating [] = None"
  by (simp add: first_rating_def)

lemma search_rating_tokens:
  "search_rating prev s =
     first_rating (runs re_word (if word_opt prev then dropWhile re_word s else s))"
proof (induction s arbitrary: prev)
  case Nil
  show ?case by (simp add: match_rating_here_def first_rating_Nil head_def word_boundary_def)
next
  case (Cons c cs)
  show ?case
  proof (cases "re_word c")
    case False
    then have "search_rating prev (c # cs) = search_rating (Some c) cs"
      by (simp add: match_here_nonword)
    also have "\<dots> = first_rating (runs re_word cs)"
      using False by (simp add: Cons.IH word_opt_def)
    finally show ?thesis using False by simp
  next
    case True
    show ?thesis
    proof (cases "word_opt prev")
      case wp: True
      then have "match_rating_here prev (c # cs) = None"
        using True by (intro match_here_no_boundary) (simp add: head_def word_opt_def)
      then have "search_rating prev (c # cs) = search_rating (Some c) cs" by simp
      also have "\<dots> = first_rating (runs re_word (dropWhile re_word cs))"
        using True by (simp add: Cons.IH word_opt_def)
      finally show ?thesis using True wp by simp
    next
      case wp: False
      have "search_rating prev (c # cs) =
            (case map_of rating_words (c # takeWhile re_word cs) of
               Some n \<Rightarrow> Some n | None \<Rightarrow> search_rating (Some c) cs)"
        using match_here_token [OF wp True] by simp
      also have "search_rating (Some c) cs = first_rating (runs re_word (dropWhile re_word cs))"
        using True by (simp add: Cons.IH word_opt_def)
      finally show ?thesis using True wp by (simp add: first_rating_Cons)
    qed
  qed
qed

lemma runs_dropWhile:
  "(\<And>x. Q x \<Longrightarrow> \<not> P x) \<Longrightarrow> runs P (dropWhile Q s) = runs P s"
  by (induction s) auto

lemma takeWhile_none: "\<forall>x \<in> set b. \<not> P x \<Longrightarrow> takeWhile P b = []"
  by (cases b) auto

lemma dropWhile_none: "\<forall>x \<in> set b. \<not> P x \<Longrightarrow> dropWhile P b = b"
  by (cases b) auto

lemma runs_none: "\<forall>x \<in> set b. \<not> P x \<Longrightarrow> runs P b = []"
  by (induction b) auto

lemma runs_append_not:
  assumes b: "\<forall>x \<in> set b. \<not> P x"
  shows "runs P (a @ b) = runs P a"
proof (induction "length a" arbitrary: a rule: less_induct)
  case less
  show ?case
  proof (cases a)
    case Nil
    with b show ?thesis by (simp add: runs_none)
  next
    case (Cons c cs)
    show ?thesis
    proof (cases "P c")
      case False
      have "runs P (cs @ b) = runs P cs"
        using less [of cs] Cons by simp
      with False Cons show ?thesis by simp
    next
      case True
      have tw: "takeWhile P (cs @ b) = takeWhile P cs"
      proof (cases "\<forall>x \<in> set cs. P x")
        case True
        then have 1: "takeWhile P cs = cs" by (simp only: takeWhile_eq_all_conv)
        from True have "takeWhile P (cs @ b) = cs @ takeWhile P b"
          by (intro takeWhile_append2) simp
        also have "\<dots> = cs" using b by (simp only: takeWhile_none append_Nil2)
        finally show ?thesis by (simp only: 1)
      next
        case False
        then show ?thesis by (auto simp: takeWhile_append)
      qed
      have dw: "dropWhile P (cs @ b) = dropWhile P cs @ b"
        using b by (simp add: dropWhile_append dropWhile_none)
      have "length (dropWhile P cs) < length a"
        using Cons by (simp add: le_imp_less_Suc length_dropWhile_le)
      then have "runs P (dropWhile P cs @ b) = runs P (dropWhile P cs)"
        by (rule less)
      with True Cons tw dw show ?thesis by simp
    qed
  qed
qed

lemma space_not_word: "py_isspace c \<Longrightarrow> \<not> re_word c"
  by (auto simp: py_isspace_def re_word_def py_isalpha_def py_isnumeric_def py_isdigit_def Let_def)

lemma word_tokens_strip: "word_tokens (py_strip s) = word_tokens s"
proof -
  let ?l = "py_lstrip s"
  have "rev (takeWhile py_isspace (rev ?l) @ dropWhile py_isspace (rev ?l)) = ?l"
    by (simp only: takeWhile_dropWhile_id rev_rev_ident)
  then have l: "?l = py_rstrip ?l @ rev (takeWhile py_isspace (rev ?l))"
    by (simp only: rev_append py_rstrip_def)
  have "\<forall>x \<in> set (rev (takeWhile py_isspace (rev ?l))). \<not> re_word x"
    using space_not_word by (auto dest: set_takeWhileD)
  then have "runs re_word (py_rstrip ?l @ rev (takeWhile py_isspace (rev ?l))) = runs re_word (py_rstrip ?l)"
    by (rule runs_append_not)
  with l have "runs re_word ?l = runs re_word (py_rstrip ?l)" by simp
  moreover have "runs re_word ?l = runs re_word s"
    unfolding py_lstrip_def using space_not_word by (rule runs_dropWhile)
  ultimately show ?thesis
    by (simp add: word_tokens_def py_strip_def)
qed

lemma parse_tokens: "parse_1_to_10 s = first_rating (word_tokens s)"
  using word_tokens_strip [of s]
  by (simp add: parse_1_to_10_def search_rating_tokens word_opt_def word_tokens_def)

lemma first_rating_Some_iff:
  "(\<exists>n. first_rating ws = Some n) \<longleftrightarrow> (\<exists>w \<in> set ws. map_of rating_words w \<noteq> None)"
  by (induction ws) (auto simp: first_rating_Cons first_rating_Nil split: option.splits)

text \<open>
  C6. \<open>parse_1_to_10\<close> returns the value of the first word of the input that is one of
  \<open>1\<close>, ..., \<open>9\<close>, \<open>10\<close> (the keys of \<open>rating_words\<close>), the words being the maximal
  runs of word characters; it returns a number exactly when there is such a word, the
  number lies between 1 and 10, and \<open>100\<close>, \<open>11\<close> and \<open>0\<close> give nothing.
\<close>

theorem parse_rating_tokens:
  "parse_1_to_10 s = first_rating (word_tokens s)
   \<and> ((\<exists>n. parse_1_to_10 s = Some n) \<longleftrightarrow>
        (\<exists>w \<in> set (word_tokens s). w \<in> fst ` set rating_words))
   \<and> (\<forall>n. parse_1_to_10 s = Some n \<longrightarrow> 1 \<le> n \<and> n \<le> 10)
   \<and> parse_1_to_10 ''100'' = None \<and> parse_1_to_10 ''11'' = None \<and> parse_1_to_10 ''0'' = None"
proof (intro conjI allI impI)
  show "parse_1_to_10 s = first_rating (word_tokens s)" by (rule parse_tokens)
next
  have "\<And>w. map_of rating_words w \<noteq> None \<longleftrightarrow> w \<in> fst ` set rating_words"
    by (simp only: map_of_eq_None_iff not_not)
  then show "(\<exists>n. parse_1_to_10 s = Some n) \<longleftrightarrow>
        (\<exists>w \<in> set (word_tokens s). w \<in> fst ` set rating_words)"
    by (simp only: parse_tokens first_rating_Some_iff)
next
  fix n assume "parse_1_to_10 s = Some n"
  then have "first_rating (word_tokens s) = Some n" by (simp add: parse_tokens)
  then obtain w where "map_of rating_words w = Some n"
    by (auto simp: first_rating_def split: option.splits)
  then have "1 \<le> n \<and> n \<le> 10" by (rule rating_range)
  then show "1 \<le> n" and "n \<le> 10" by simp_all
next
  show "parse_1_to_10 ''100'' = None" by code_simp
  show "parse_1_to_10 ''11'' = None" by code_simp
  show "parse_1_to_10 ''0'' = None" by code_simp
qed

theorem parse_rating_tokens_witness:
  "parse_1_to_10 ''I'd say 8'' = Some 8 \<and> 1 \<le> (8::int) \<and> (8::int) \<le> 10
   \<and> ''8'' \<in> set (word_tokens ''I'd say 8'')"
proof -
  have 1: "first_rating (word_tokens ''I'd say 8'') = Some 8" by code_simp
  have 2: "''8'' \<in> set (word_tokens ''I'd say 8'')" by code_simp
  from parse_rating_tokens [of "''I'd say 8''"] 1 2 show ?thesis by simp
qed

section \<open>Facts about the session\<close>


lemma greet_block_id: "step s \<noteq> Greet \<Longrightarrow> greet_block s = s"
  by (simp add: greet_block_def)





lemma tech_q_on_failure:
  assumes p: "q_ptr s < length (flat_questions s)"
    and fail: "fst (llm_score_answer e (snd (flat_questions s ! q_ptr s)) (py_strip u) (calls s)) = Inl err"
  shows "\<exists>s'. handle_tech_q e s u = (s', Completed)
      \<and> answers s' = answers s @
            [\<lparr>a_tech = fst (flat_questions s ! q_ptr s),
              a_question = snd (flat_questions s ! q_ptr s),
              a_answer = py_strip u, a_score = None, a_feedback = None\<rparr>]
      \<and> q_ptr s' = q_ptr s + 1
      \<and> (if q_ptr s + 1 < length (flat_questions s)
         then step s' = step s
              \<and> (\<exists>n. last (history s') =
                    (Assistant, Question (fst (flat_questions s ! (q_ptr s + 1))) n
                                  (snd (flat_questions s ! (q_ptr s + 1)))))
         else step s' = Done \<and> final_summary s' \<noteq> None)"
proof (cases "llm_score_answer e (snd (flat_questions s ! q_ptr s)) (py_strip u) (calls s)")
  case (Pair scored n)
  with fail have sc: "scored = Inl err" by simp
  show ?thesis
  proof (cases "q_ptr s + 1 < length (flat_questions s)")
    case True
    with p Pair sc show ?thesis
      by (simp add: handle_tech_q_def Let_def say_def)
  next
    case False
    with p Pair sc show ?thesis
      by (simp add: handle_tech_q_def Let_def say_def save_simulated_def split: prod.splits)
  qed
qed

text \<open>
  C9. While the questions are asked, if the scorer raises on the answer to the current
  question, the run of the script still completes: the answer is appended with no score
  and no feedback, the cursor advances, and either the next question is asked or the
  summary is made and the session is done.
\<close>

theorem scoring_failure_continues:
  assumes "step s = Tech_q" and "q_ptr s < length (flat_questions s)"
    and "u \<noteq> []" and "\<not> is_end_message u"
    and "fst (llm_score_answer e (snd (flat_questions s ! q_ptr s)) (py_strip u) (calls s)) = Inl err"
  shows "\<exists>s'. handle_input e s u = (s', Completed)
      \<and> answers s' = answers s @
            [\<lparr>a_tech = fst (flat_questions s ! q_ptr s),
              a_question = snd (flat_questions s ! q_ptr s),
              a_answer = py_strip u, a_score = None, a_feedback = None\<rparr>]
      \<and> q_ptr s' = q_ptr s + 1
      \<and> (if q_ptr s + 1 < length (flat_questions s)
         then step s' = Tech_q
              \<and> (\<exists>n. last (history s') =
                    (Assistant, Question (fst (flat_questions s ! (q_ptr s + 1))) n
                                  (snd (flat_questions s ! (q_ptr s + 1)))))
         else step s' = Done \<and> final_summary s' \<noteq> None)"
proof -
  let ?s1 = "s\<lparr>history := history s @ [(User, UserText u)]\<rparr>"
  have h: "handle_input e s u = handle_tech_q e ?s1 u"
    using assms by (simp add: handle_input_def dispatch_def)
  have "q_ptr ?s1 < length (flat_questions ?s1)" using assms by simp
  moreover have "fst (llm_score_answer e (snd (flat_questions ?s1 ! q_ptr ?s1)) (py_strip u) (calls ?s1)) = Inl err"
    using assms by simp
  ultimately obtain s' where r: "handle_tech_q e ?s1 u = (s', Completed)"
    and a: "answers s' = answers ?s1 @
            [\<lparr>a_tech = fst (flat_questions ?s1 ! q_ptr ?s1),
              a_question = snd (flat_questions ?s1 ! q_ptr ?s1),
              a_answer = py_strip u, a_score = None, a_feedback = None\<rparr>]"
    and q: "q_ptr s' = q_ptr ?s1 + 1"
    and n: "if q_ptr ?s1 + 1 < length (flat_questions ?s1)
         then step s' = step ?s1
              \<and> (\<exists>n. last (history s') =
                    (Assistant, Question (fst (flat_questions ?s1 ! (q_ptr ?s1 + 1))) n
                                  (snd (flat_questions ?s1 ! (q_ptr ?s1 + 1)))))
         else step s' = Done \<and> final_summary s' \<noteq> None"
    using tech_q_on_failure [of ?s1 e u err] by blast
  show ?thesis
  proof (intro exI [of _ s'] conjI)
    show "handle_input e s u = (s', Completed)" using h r by simp
    show "answers s' = answers s @
            [\<lparr>a_tech = fst (flat_questions s ! q_ptr s),
              a_question = snd (flat_questions s ! q_ptr s),
              a_answer = py_strip u, a_score = None, a_feedback = None\<rparr>]"
      using a by simp
    show "q_ptr s' = q_ptr s + 1" using q by simp
    show "if q_ptr s + 1 < length (flat_questions s)
         then step s' = Tech_q
              \<and> (\<exists>n. last (history s') =
                    (Assistant, Question (fst (flat_questions s ! (q_ptr s + 1))) n
                                  (snd (flat_questions s ! (q_ptr s + 1)))))
         else step s' = Done \<and> final_summary s' \<noteq> None"
      using n assms(1) by (simp split: if_splits)
  qed
qed

lemma asking_ready:
  "case run_script env_short (run_all env_short init_session profile_inputs) (Some ''7'') of
     (s, out) \<Rightarrow>
       step s = Tech_q \<and> q_ptr s = 0 \<and> answers s = [] \<and> calls s = 2
       \<and> flat_questions s =
           [(''Python'', ''What is a list?''),
            (''Python'', ''Briefly explain a key concept in Python.''),
            (''Python'', ''How do you debug common issues in Python?''),
            (''Python'', ''Describe a challenging Python task you solved.'')]"
  by code_simp

theorem scoring_failure_continues_witness:
  "snd (handle_input env_short
          (fst (run_script env_short (run_all env_short init_session profile_inputs) (Some ''7'')))
          ''It is a sequence.'') = Completed
   \<and> map a_score
         (answers (fst (handle_input env_short
            (fst (run_script env_short (run_all env_short init_session profile_inputs) (Some ''7'')))
            ''It is a sequence.''))) = [None]
   \<and> step (fst (handle_input env_short
         (fst (run_script env_short (run_all env_short init_session profile_inputs) (Some ''7'')))
         ''It is a sequence.'')) = Tech_q"
proof -
  let ?s = "fst (run_script env_short (run_all env_short init_session profile_inputs) (Some ''7''))"
  from asking_ready have r: "step ?s = Tech_q" "q_ptr ?s = 0" "answers ?s = []" "calls ?s = 2"
    "flat_questions ?s =
           [(''Python'', ''What is a list?''),
            (''Python'', ''Briefly explain a key concept in Python.''),
            (''Python'', ''How do you debug common issues in Python?''),
            (''Python'', ''Describe a challenging Python task you solved.'')]"
    by (simp_all add: case_prod_beta)
  have 2: "q_ptr ?s < length (flat_questions ?s)" by (simp add: r)
  have 3: "''It is a sequence.'' \<noteq> []" by simp
  have 4: "\<not> is_end_message ''It is a sequence.''" by code_simp
  have "fst (llm_score_answer env_short ''What is a list?'' (py_strip ''It is a sequence.'') 2)
        = Inl RuntimeError"
    by code_simp
  then have 5: "fst (llm_score_answer env_short (snd (flat_questions ?s ! q_ptr ?s))
                  (py_strip ''It is a sequence.'') (calls ?s)) = Inl RuntimeError"
    by (simp add: r)
  have 6: "q_ptr ?s + 1 < length (flat_questions ?s)" by (simp add: r)
  from scoring_failure_continues [OF r(1) 2 3 4 5] 6 r(3) show ?thesis by auto
qed

section \<open>Facts about the question generator\<close>

lemma map_of_dict_set: "map_of (dict_set k v d) = (map_of d)(k \<mapsto> v)"
  by (induction d) (auto simp: fun_eq_iff)

lemma dict_set_keys: "fst ` set (dict_set k v d) = insert k (fst ` set d)"
proof (induction d)
  case Nil
  show ?case by simp
next
  case (Cons p d)
  obtain a b where p: "p = (a, b)" by (cases p)
  show ?case
  proof (cases "a = k")
    case True
    with p show ?thesis by simp
  next
    case False
    with p Cons show ?thesis by (simp add: insert_commute)
  qed
qed

lemma fallback_nonempty: "\<forall>q \<in> set (fallback_questions t). q \<noteq> []"
  by (simp add: fallback_questions_def)

lemma clean_list_bounds:
  "3 \<le> length (clean_list e t qs) \<and> length (clean_list e t qs) \<le> 5
   \<and> (\<forall>q \<in> set (clean_list e t qs). q \<noteq> [])"
proof -
  let ?qs1 = "filter (\<lambda>q. q \<noteq> []) (map (\<lambda>q. py_strip (py_str e q)) qs)"
  have 1: "\<forall>q \<in> set ?qs1. q \<noteq> []" by simp
  have 2: "length (fallback_questions t) = 3" by (simp add: fallback_questions_def)
  have len: "3 \<le> length (clean_list e t qs) \<and> length (clean_list e t qs) \<le> 5"
    using 2 by (simp add: clean_list_def Let_def)
  have "\<forall>q \<in> set (clean_list e t qs). q \<noteq> []"
  proof
    fix q assume "q \<in> set (clean_list e t qs)"
    then have "q \<in> set ?qs1 \<or> q \<in> set (fallback_questions t)"
      by (auto simp: clean_list_def Let_def dest!: in_set_takeD split: if_splits)
    with 1 fallback_nonempty show "q \<noteq> []" by blast
  qed
  with len show ?thesis by simp
qed

lemma sanitize_lookup:
  "map_of (sanitize e d ts cleaned) t =
     (if t \<in> set ts
      then (case lookup_questions d t of
              JList qs \<Rightarrow> Some (clean_list e t qs)
            | _ \<Rightarrow> map_of cleaned t)
      else map_of cleaned t)"
proof (induction ts arbitrary: cleaned)
  case Nil
  show ?case by simp
next
  case (Cons a ts)
  show ?case
    by (cases "lookup_questions d a") (auto simp: Cons.IH map_of_dict_set split: json.splits)
qed

lemma sanitize_keys: "fst ` set (sanitize e d ts cleaned) \<subseteq> set ts \<union> fst ` set cleaned"
proof (induction ts arbitrary: cleaned)
  case Nil
  show ?case by simp
next
  case (Cons a ts)
  show ?case
  proof (cases "lookup_questions d a")
    case (JList qs)
    with Cons.IH [of "dict_set a (clean_list e a qs) cleaned"] show ?thesis
      by (auto simp: dict_set_keys)
  qed (use Cons.IH [of cleaned] in auto)
qed

text \<open>
  C2, as stated, fails: the backend call succeeds and returns a JSON object in which
  \<open>Python\<close> is mapped to a string; the mapping that comes back is empty, and \<open>Python\<close>
  is not a key of it.
\<close>

theorem generated_questions_counterexample:
  "fst (safe_generate env_nonlist (QuestionsPrompt (py_join '', '' [''Python''])) 3 0) = Inr nonlist_doc
   \<and> fst (llm_generate_questions env_nonlist [''Python''] 0) = Inr []"
  by code_simp

text \<open>
  C2, amended. When the backend call succeeds with the text \<open>raw\<close>, the mapping returned
  has only techs of the input as keys, and for every tech \<open>t\<close> of the input: if the value
  looked up for \<open>t\<close> (under the name, then the capitalised name, then the lower-cased
  name, the first that is truthy, else the empty list) is a list, then \<open>t\<close> is a key and
  is mapped to at least 3 and at most 5 non-empty questions; if it is not a list, \<open>t\<close> is
  not a key.
\<close>

theorem generated_questions_shape:
  assumes gen: "safe_generate e (QuestionsPrompt (py_join '', '' ts)) 3 n = (Inr raw, n')"
    and t: "t \<in> set ts"
  shows "\<exists>cleaned. llm_generate_questions e ts n = (Inr cleaned, n')
           \<and> fst ` set cleaned \<subseteq> set ts
           \<and> (case lookup_questions (extract_or_empty e raw) t of
                JList qs0 \<Rightarrow>
                  (\<exists>qs. map_of cleaned t = Some qs \<and> 3 \<le> length qs \<and> length qs \<le> 5
                        \<and> (\<forall>q \<in> set qs. q \<noteq> []))
              | _ \<Rightarrow> map_of cleaned t = None)"
proof -
  let ?d = "extract_or_empty e raw"
  let ?c = "sanitize e ?d ts []"
  have r: "llm_generate_questions e ts n = (Inr ?c, n')"
    using gen by (simp add: llm_generate_questions_def)
  have k: "fst ` set ?c \<subseteq> set ts"
    using sanitize_keys [of e ?d ts "[]"] by simp
  have m: "map_of ?c t = (case lookup_questions ?d t of
              JList qs \<Rightarrow> Some (clean_list e t qs) | _ \<Rightarrow> None)"
    using t by (simp add: sanitize_lookup split: json.splits)
  have "case lookup_questions ?d t of
                JList qs0 \<Rightarrow>
                  (\<exists>qs. map_of ?c t = Some qs \<and> 3 \<le> length qs \<and> length qs \<le> 5
                        \<and> (\<forall>q \<in> set qs. q \<noteq> []))
              | _ \<Rightarrow> map_of ?c t = None"
    using clean_list_bounds by (cases "lookup_questions ?d t") (simp_all add: m)
  with r k show ?thesis by blast
qed

theorem generated_questions_shape_witness:
  "llm_generate_questions env_short [''Python''] 0
     = (Inr [(''Python'', [''What is a list?'', ''Briefly explain a key concept in Python.'',
                           ''How do you debug common issues in Python?'',
                           ''Describe a challenging Python task you solved.''])], 2)"
proof -
  have 1: "safe_generate env_short (QuestionsPrompt (py_join '', '' [''Python''])) 3 0 = (Inr short_doc, 2)"
    by code_simp
  have 2: "''Python'' \<in> set [''Python'']" by simp
  have 3: "sanitize env_short (extract_or_empty env_short short_doc) [''Python''] [] =
      [(''Python'', [''What is a list?'', ''Briefly explain a key concept in Python.'',
                           ''How do you debug common issues in Python?'',
                           ''Describe a challenging Python task you solved.''])]"
    by code_simp
  from generated_questions_shape [OF 1 2] obtain cleaned where
    "llm_generate_questions env_short [''Python''] 0 = (Inr cleaned, 2)" by blast
  moreover have "llm_generate_questions env_short [''Python''] 0 = (Inr (sanitize env_short (extract_or_empty env_short short_doc) [''Python''] []), 2)"
    using 1 by (simp add: llm_generate_questions_def)
  ultimately show ?thesis using 3 by simp
qed

section \<open>Facts about the field cursor\<close>

lemma length_FIELDS: "length FIELDS = 7"
  by (simp add: FIELDS_def)

lemma index_Tech_Stack: "py_index FIELDS Tech_Stack = 6"
  by (simp add: py_index_def FIELDS_def)

lemma validate_verdict: "snd (validate_and_store f u s) = None \<longleftrightarrow> accepted f u"
  by (cases f) (simp_all add: accepted_def Let_def)

lemma validate_keeps:
  "step (fst (validate_and_store f u s)) = step s
   \<and> field_index (fst (validate_and_store f u s)) = field_index s"
  by (cases f) (simp_all add: Let_def store_def)

lemma say_keeps [simp]:
  "step (say t s) = step s" "field_index (say t s) = field_index s"
  "flat_questions (say t s) = flat_questions s"
  by (simp_all add: say_def)

lemma handle_fields_effect:
  assumes st: "step s = Fields" and i: "field_index s < length FIELDS"
  shows "field_index (fst (handle_fields s u)) =
           (if accepted (FIELDS ! field_index s) u then field_index s + 1 else field_index s)
         \<and> session_inv (fst (handle_fields s u))"
proof (cases "validate_and_store (FIELDS ! field_index s) u s")
  case (Pair s1 err)
  from validate_keeps [of "FIELDS ! field_index s" u s] Pair
  have k: "step s1 = Fields" "field_index s1 = field_index s" using st by simp_all
  from validate_verdict [of "FIELDS ! field_index s" u s] Pair
  have v: "err = None \<longleftrightarrow> accepted (FIELDS ! field_index s) u" by simp
  show ?thesis
  proof (cases err)
    case (Some m)
    with Pair k v i show ?thesis
      by (simp add: handle_fields_def session_inv_def)
  next
    case None
    show ?thesis
    proof (cases "field_index s + 1 < length FIELDS")
      case True
      with None Pair k v i show ?thesis
        by (simp add: handle_fields_def session_inv_def ask_next_field_def Let_def)
    next
      case False
      with i have "field_index s + 1 = length FIELDS" by simp
      with None Pair k v i show ?thesis
        by (simp add: handle_fields_def session_inv_def Let_def split: list.splits)
    qed
  qed
qed

lemma handle_ratings_effect:
  assumes st: "step s = Ratings" and i: "field_index s = length FIELDS"
  shows "session_inv (fst (handle_ratings e s u))
         \<and> (field_index (fst (handle_ratings e s u)) = field_index s
            \<or> (field_index (fst (handle_ratings e s u)) = 6
               \<and> step (fst (handle_ratings e s u)) = Fields
               \<and> flat_questions (fst (handle_ratings e s u)) = []))"
  using assms
  by (auto simp: handle_ratings_def session_inv_def Let_def length_FIELDS index_Tech_Stack
      split: option.splits prod.splits sum.splits list.splits)

lemma handle_tech_q_effect:
  assumes st: "step s = Tech_q" and i: "field_index s = length FIELDS"
  shows "session_inv (fst (handle_tech_q e s u))
         \<and> field_index (fst (handle_tech_q e s u)) = field_index s"
  using assms
  by (auto simp: handle_tech_q_def session_inv_def Let_def save_simulated_def
      split: prod.splits sum.splits)

lemma end_session_keeps:
  "step (end_session s) = step s \<and> field_index (end_session s) = field_index s"
  by (simp add: end_session_def Let_def save_simulated_def)

lemma run_effect:
  assumes inv: "session_inv s"
  shows "session_inv (fst (run_script e s inp))
     \<and> ((field_index (fst (run_script e s inp)) = field_index s + 1 \<and> field_accepted s inp)
        \<or> (field_index (fst (run_script e s inp)) = field_index s \<and> \<not> field_accepted s inp)
        \<or> (field_index s = 7 \<and> field_index (fst (run_script e s inp)) = 6 \<and> step s = Ratings
           \<and> step (fst (run_script e s inp)) = Fields
           \<and> flat_questions (fst (run_script e s inp)) = []))"
proof -
  from inv have g: "greet_block s = s" by (simp add: session_inv_def greet_block_id)
  show ?thesis
  proof (cases inp)
    case None
    with inv g show ?thesis by (simp add: run_script_def field_accepted_def)
  next
    case (Some u)
    show ?thesis
    proof (cases "u = [] \<or> is_end_message u")
      case True
      with inv g Some end_session_keeps [of s] show ?thesis
        by (auto simp: run_script_def handle_input_def field_accepted_def session_inv_def)
    next
      case False
      let ?s1 = "s\<lparr>history := history s @ [(User, UserText u)]\<rparr>"
      have r: "run_script e s inp = dispatch e ?s1 u"
        using False Some g by (simp add: run_script_def handle_input_def)
      have inv1: "session_inv ?s1" using inv by (simp add: session_inv_def)
      show ?thesis
      proof (cases "step s")
        case Greet
        with inv show ?thesis by (simp add: session_inv_def)
      next
        case Fields
        with inv have i: "field_index ?s1 < length FIELDS" by (simp add: session_inv_def)
        from Fields have d: "dispatch e ?s1 u = handle_fields ?s1 u" by (simp add: dispatch_def)
        from handle_fields_effect [of ?s1 u] Fields i
        have "field_index (fst (handle_fields ?s1 u)) =
                (if accepted (FIELDS ! field_index s) u then field_index s + 1 else field_index s)"
          and "session_inv (fst (handle_fields ?s1 u))" by simp_all
        with Fields False Some i show ?thesis
          unfolding r d by (simp add: field_accepted_def)
      next
        case Ratings
        with inv have i: "field_index ?s1 = length FIELDS" by (simp add: session_inv_def)
        from Ratings have d: "dispatch e ?s1 u = handle_ratings e ?s1 u" by (simp add: dispatch_def)
        from handle_ratings_effect [of ?s1 e u] Ratings i
        show ?thesis
          unfolding r d using Ratings Some i by (auto simp: field_accepted_def length_FIELDS)
      next
        case Tech_q
        with inv have i: "field_index ?s1 = length FIELDS" by (simp add: session_inv_def)
        from Tech_q have d: "dispatch e ?s1 u = handle_tech_q e ?s1 u" by (simp add: dispatch_def)
        from handle_tech_q_effect [of ?s1 e u] Tech_q i
        show ?thesis
          unfolding r d using Tech_q Some by (auto simp: field_accepted_def)
      next
        case Summary
        with inv1 Some show ?thesis
          unfolding r by (simp add: dispatch_def field_accepted_def session_inv_def)
      next
        case Done
        with inv1 Some show ?thesis
          unfolding r by (simp add: dispatch_def field_accepted_def session_inv_def)
      qed
    qed
  qed
qed

lemma first_load_inv: "session_inv (greet_block (init_session\<lparr>saved := sv, calls := n\<rparr>))"
  by (simp add: session_inv_def greet_block_def init_session_def ask_next_field_def
      ensure_greeting_once_def say_def length_FIELDS Let_def)

lemma first_load: "greet_block (init_session\<lparr>saved := [], calls := 0\<rparr>) = greet_block init_session"
  by (simp add: init_session_def)

lemma reachable_inv: "reachable e s \<Longrightarrow> session_inv s"
proof (induction rule: reachable.induct)
  case r_init
  show ?case using first_load_inv [where sv = "[]" and n = 0] by (simp only: first_load)
next
  case (r_run s inp)
  then show ?case using run_effect by blast
next
  case (r_consent s b)
  then show ?case by (simp add: session_inv_def)
next
  case (r_erase s)
  show ?case unfolding erase_def by (rule first_load_inv)
qed

lemma reachable_run_all: "reachable e s \<Longrightarrow> reachable e (run_all e s inps)"
  by (induction inps arbitrary: s) (auto intro: reachable.r_run)

lemma reachable_from_init: "reachable e (run_all e init_session (None # inps))"
proof -
  have "run_all e init_session (None # inps) = run_all e (greet_block init_session) inps"
    by (simp add: run_script_def)
  with reachable_run_all [OF reachable.r_init] show ?thesis by simp
qed

text \<open>
  C3, as stated, fails. A session that has collected the seven fields is reachable and
  has \<open>field_index\<close> 7; when the rating of its only tech arrives and the generator
  returns no question, the recovery sets \<open>field_index\<close> to 6.
\<close>

theorem field_index_counterexample:
  "reachable env_nonlist (run_all env_nonlist init_session profile_inputs)
   \<and> field_index (run_all env_nonlist init_session profile_inputs) = 7
   \<and> field_index (fst (run_script env_nonlist
                         (run_all env_nonlist init_session profile_inputs) (Some ''7''))) = 6"
proof (intro conjI)
  have "profile_inputs = None # tl profile_inputs" by (simp add: profile_inputs_def)
  then show "reachable env_nonlist (run_all env_nonlist init_session profile_inputs)"
    using reachable_from_init [of env_nonlist "tl profile_inputs"] by simp
  show "field_index (run_all env_nonlist init_session profile_inputs) = 7" by code_simp
  show "field_index (fst (run_script env_nonlist
                         (run_all env_nonlist init_session profile_inputs) (Some ''7''))) = 6"
    by code_simp
qed

text \<open>
  C3, amended. In every reachable session and for every run of the script, with a
  message or without, one of three things happens to \<open>field_index\<close>: a field value
  passes validation and it grows by one; no field value passes validation and it stays;
  or the recovery after an empty list of questions takes it from 7 back to 6, the index
  of the Tech Stack, and the step from \<open>Ratings\<close> back to \<open>Fields\<close>.
\<close>

theorem field_index_moves:
  assumes "reachable e s"
  shows "(field_index (fst (run_script e s inp)) = field_index s + 1 \<and> field_accepted s inp)
       \<or> (field_index (fst (run_script e s inp)) = field_index s \<and> \<not> field_accepted s inp)
       \<or> (field_index s = 7 \<and> field_index (fst (run_script e s inp)) = 6 \<and> step s = Ratings
          \<and> step (fst (run_script e s inp)) = Fields
          \<and> flat_questions (fst (run_script e s inp)) = [])"
  using run_effect [OF reachable_inv [OF assms]] by blast

theorem field_index_moves_witness:
  "field_index (fst (run_script env_down (greet_block init_session) (Some ''Ada Lovelace''))) = 1
   \<and> field_index (fst (run_script env_down (greet_block init_session) (Some ''Ada''))) = 0"
proof -
  have 0: "field_index (greet_block init_session) = 0" by code_simp
  have 1: "field_accepted (greet_block init_session) (Some ''Ada Lovelace'')" by code_simp
  have 2: "\<not> field_accepted (greet_block init_session) (Some ''Ada'')" by code_simp
  from field_index_moves [OF reachable.r_init, of env_down "Some ''Ada Lovelace''"] 0 1
  have a: "field_index (fst (run_script env_down (greet_block init_session) (Some ''Ada Lovelace''))) = 1"
    by auto
  from field_index_moves [OF reachable.r_init, of env_down "Some ''Ada''"] 0 2
  have b: "field_index (fst (run_script env_down (greet_block init_session) (Some ''Ada''))) = 0"
    by auto
  from a b show ?thesis by simp
qed

section \<open>A failing backend\<close>

text \<open>
  C1. The code does not do what the claim says. With a backend of which every call
  raises, the seven fields are collected and the tech \<open>Python\<close> is rated 7; the call of
  the question generator then raises \<open>RuntimeError\<close> out of the script after three
  attempts: no question is produced, and the step stays \<open>Ratings\<close>.
\<close>

theorem generation_failure_raises:
  "case run_script env_down (run_all env_down init_session profile_inputs) (Some ''7'') of
     (s', out) \<Rightarrow>
       out = Raised RuntimeError \<and> step s' = Ratings \<and> techs s' = [''Python'']
       \<and> ratings s' = [(''Python'', 7)] \<and> rating_idx s' = Some 1
       \<and> qmap s' = [] \<and> flat_questions s' = [] \<and> calls s' = 3
       \<and> last (history s') = (Assistant, Generating)"
  by code_simp

end
